theory Spec2Isabelle
  imports Main
begin

section \<open>The search box controller (class \<open>App\<close>)\<close>

text \<open>
  The component is an Angular class whose fields are mutated by event handlers and by
  the callbacks of one RxJS stream. The fields become a record, every handler a function
  from state to state, and the stream operators (\<open>debounceTime\<close>,
  \<open>distinctUntilChanged\<close>, \<open>tap\<close>, \<open>switchMap\<close>, \<open>timeout\<close>, \<open>retry\<close>,
  \<open>catchError\<close>) an explicit part of the state: the value waiting in the debounce
  buffer, the last value let through by \<open>distinctUntilChanged\<close>, and the one inner
  subscription \<open>switchMap\<close> keeps alive.

  Strings are lists of 8-bit code units, read as the code points U+0000 to U+00FF of a
  JavaScript string. Time is abstracted: a timer or a network answer is an event that
  may arrive at any moment.

  Left out, as they change no field of the class: the calls into the DOM
  (\<open>focus()\<close>, \<open>blur()\<close>, \<open>scrollIntoView\<close>; a focus or blur they cause is an event
  of its own here), the console output, \<open>encodeURIComponent\<close> in the URL, and
  \<open>ngOnDestroy\<close>, after which no handler runs.
\<close>

subsection \<open>Strings: \<open>trim\<close> and truthiness\<close>

text \<open>The white space and line terminators \<open>String.prototype.trim\<close> removes, in the
  range U+0000 to U+00FF: TAB, LF, VT, FF, CR, SPACE and NBSP.\<close>

definition isWhiteSpace :: "char \<Rightarrow> bool" where
  "isWhiteSpace c = (c = CHR 0x09 \<or> c = CHR 0x0A \<or> c = CHR 0x0B \<or> c = CHR 0x0C
     \<or> c = CHR 0x0D \<or> c = CHR 0x20 \<or> c = CHR 0xA0)"

definition trim :: "string \<Rightarrow> string" where
  "trim s = rev (dropWhile isWhiteSpace (rev (dropWhile isWhiteSpace s)))"

text \<open>A string is truthy when it is not empty; \<open>term.trim()\<close> in a condition.\<close>

definition truthy :: "string \<Rightarrow> bool" where
  "truthy s = (s \<noteq> [])"

subsection \<open>State\<close>

text \<open>What the \<open>catchError\<close> callback receives: the \<open>TimeoutError\<close> of the
  \<open>timeout\<close> operator, or an \<open>HttpErrorResponse\<close> with its \<open>status\<close> and the
  \<open>error\<close> field of its JSON body, when the body has one.\<close>

datatype failure = TimeoutError | HttpErrorResponse nat "string option"

text \<open>The inner observable \<open>switchMap\<close> is subscribed to: none, an HTTP request in
  flight, or the pause of \<open>retry\<close> before it subscribes again. Each carries the number
  of the HTTP request, the query and how many attempts have failed so far.\<close>

datatype inner = Idle | InFlight nat string nat | Backoff nat string nat

record app =
  searchTerm :: string
  results :: "string list"
  selectedValue :: "string option"
  selectedIndex :: int
  isLoading :: bool
  hasError :: bool
  hasSearched :: bool
  showDropdown :: bool
  showErrorToast :: bool
  errorMessage :: string
  toastMessage :: string
  errorCount :: nat
  requestCount :: nat
  latency :: "nat option"
  blurTimeout :: bool
  debounced :: "string option"
  lastDistinct :: "string option"
  subscription :: inner
  nextRequest :: nat
  httpRequests :: "(nat \<times> string) list"
  resultSelected :: "string list"

text \<open>\<open>blurTimeout\<close> tells whether the timer of \<open>onBlur\<close> is pending, \<open>debounced\<close>
  is the value \<open>debounceTime\<close> holds back, \<open>httpRequests\<close> lists the requests sent
  (number and query; the URL is the fixed address with the encoded query), and
  \<open>resultSelected\<close> lists the values emitted to the embedding context.\<close>

definition MAX_RETRIES :: nat where
  "MAX_RETRIES = 2"

definition initial :: app where
  "initial = \<lparr> searchTerm = [], results = [], selectedValue = None, selectedIndex = - 1,
     isLoading = False, hasError = False, hasSearched = False, showDropdown = False,
     showErrorToast = False, errorMessage = [], toastMessage = [], errorCount = 0,
     requestCount = 0, latency = None, blurTimeout = False, debounced = None,
     lastDistinct = None, subscription = Idle, nextRequest = 0, httpRequests = [],
     resultSelected = [] \<rparr>"

subsection \<open>Handlers of the class\<close>

definition hasResults :: "app \<Rightarrow> bool" where
  "hasResults s = (length (results s) > 0)"

definition showToast :: "app \<Rightarrow> string \<Rightarrow> app" where
  "showToast s message = s\<lparr> toastMessage := message, showErrorToast := True \<rparr>"

definition dismissToast :: "app \<Rightarrow> app" where
  "dismissToast s = s\<lparr> showErrorToast := False \<rparr>"

definition navigateResults :: "app \<Rightarrow> int \<Rightarrow> app" where
  "navigateResults s direction =
     (if \<not> hasResults s then s
      else let newIndex = selectedIndex s + direction in
        if newIndex < - 1 then s\<lparr> selectedIndex := int (length (results s)) - 1 \<rparr>
        else if newIndex \<ge> int (length (results s)) then s\<lparr> selectedIndex := - 1 \<rparr>
        else s\<lparr> selectedIndex := newIndex \<rparr>)"

definition selectResult :: "app \<Rightarrow> string \<Rightarrow> app" where
  "selectResult s result =
     s\<lparr> selectedValue := Some result, searchTerm := result, showDropdown := False,
        resultSelected := resultSelected s @ [result] \<rparr>"

text \<open>\<open>this.results[i]\<close>: the element, or \<open>undefined\<close> outside the array.\<close>

definition resultAt :: "string list \<Rightarrow> int \<Rightarrow> string option" where
  "resultAt rs i = (if 0 \<le> i \<and> i < int (length rs) then Some (rs ! nat i) else None)"

datatype key = ArrowDown | ArrowUp | Enter | Escape | Tab | OtherKey

definition onEnter :: "app \<Rightarrow> app" where
  "onEnter s =
     (case resultAt (results s) (selectedIndex s) of
        Some r \<Rightarrow>
          if selectedIndex s \<ge> 0 \<and> truthy r then selectResult s r
          else if length (results s) = 1 then selectResult s (results s ! 0)
          else s
      | None \<Rightarrow>
          if length (results s) = 1 then selectResult s (results s ! 0) else s)"

definition onKeyDown :: "app \<Rightarrow> key \<Rightarrow> app" where
  "onKeyDown s k =
     (if \<not> showDropdown s \<and> (k = ArrowDown \<or> k = Enter) then s\<lparr> showDropdown := True \<rparr>
      else case k of
        ArrowDown \<Rightarrow> navigateResults s 1
      | ArrowUp \<Rightarrow> navigateResults s (- 1)
      | Enter \<Rightarrow> onEnter s
      | Escape \<Rightarrow> s\<lparr> showDropdown := False, selectedIndex := - 1 \<rparr>
      | Tab \<Rightarrow> s\<lparr> showDropdown := False \<rparr>
      | OtherKey \<Rightarrow> s)"

definition onFocus :: "app \<Rightarrow> app" where
  "onFocus s = s\<lparr> blurTimeout := False, showDropdown := True \<rparr>"

definition onBlur :: "app \<Rightarrow> app" where
  "onBlur s = s\<lparr> blurTimeout := True \<rparr>"

text \<open>The callback of the timer \<open>onBlur\<close> starts, when \<open>onFocus\<close> has not cleared it.
  One timer is pending at a time: a second blur with no focus between, which would leave
  two, is not a run of this model.\<close>

definition blurElapsed :: "app \<Rightarrow> app" where
  "blurElapsed s =
     (if blurTimeout s then s\<lparr> showDropdown := False, selectedIndex := - 1, blurTimeout := False \<rparr>
      else s)"

definition handleSearchResponse :: "app \<Rightarrow> string list \<Rightarrow> app" where
  "handleSearchResponse s response =
     (let s1 = s\<lparr> isLoading := False, hasSearched := True \<rparr> in
      if length response > 0 then s1\<lparr> results := response, hasError := False \<rparr>
      else if truthy (trim (searchTerm s1)) then s1\<lparr> results := [] \<rparr>
      else s1)"

definition classify :: "failure \<Rightarrow> string" where
  "classify e =
     (case e of
        TimeoutError \<Rightarrow> ''Request timed out. Please try again.''
      | HttpErrorResponse status body \<Rightarrow>
          if status = 0 then ''Cannot connect to server. Is it running?''
          else if status = 500 then ''Server error. This might be the 15% random failure.''
          else if status = 404 then ''Search endpoint not found.''
          else (case body of
                  Some m \<Rightarrow> if truthy m then m else ''An unexpected error occurred.''
                | None \<Rightarrow> ''An unexpected error occurred.''))"

definition handleSearchError :: "app \<Rightarrow> failure \<Rightarrow> string \<Rightarrow> app" where
  "handleSearchError s e q =
     (let s1 = s\<lparr> isLoading := False, hasError := True, errorCount := errorCount s + 1,
                  results := [], errorMessage := classify e \<rparr> in
      if errorCount s1 \<ge> 3
      then showToast s1 ''Multiple errors detected. Check your connection.''
      else s1)"

text \<open>\<open>searchSubject.next(value)\<close>: the value enters \<open>debounceTime\<close>, replacing the
  one that was waiting there.\<close>

definition subjectNext :: "app \<Rightarrow> string \<Rightarrow> app" where
  "subjectNext s v = s\<lparr> debounced := Some v \<rparr>"

definition onSearchInput :: "app \<Rightarrow> string \<Rightarrow> app" where
  "onSearchInput s v =
     (let s1 = s\<lparr> searchTerm := v, selectedIndex := - 1 \<rparr>;
          s2 = (if hasError s1 then s1\<lparr> hasError := False, errorMessage := [] \<rparr> else s1);
          s3 = (if truthy v \<or> \<not> hasSearched s2 then s2\<lparr> showDropdown := True \<rparr> else s2)
      in subjectNext s3 v)"

definition retry :: "app \<Rightarrow> app" where
  "retry s =
     (if truthy (trim (searchTerm s))
      then subjectNext (s\<lparr> hasError := False, errorMessage := [] \<rparr>) (searchTerm s)
      else s)"

definition clearSearch :: "app \<Rightarrow> app" where
  "clearSearch s =
     s\<lparr> searchTerm := [], results := [], selectedIndex := - 1, hasSearched := False,
        hasError := False, selectedValue := None \<rparr>"

definition selectSuggestion :: "app \<Rightarrow> string \<Rightarrow> app" where
  "selectSuggestion s fruit = subjectNext (s\<lparr> searchTerm := fruit \<rparr>) fruit"

definition removeSelection :: "app \<Rightarrow> app" where
  "removeSelection s = clearSearch (s\<lparr> selectedValue := None \<rparr>)"

subsection \<open>The search stream of \<open>setupSearchStream\<close>\<close>

text \<open>The first \<open>tap\<close>: it tracks the request when the query is not blank.\<close>

definition trackRequest :: "app \<Rightarrow> string \<Rightarrow> app" where
  "trackRequest s q =
     (if truthy (trim q)
      then s\<lparr> isLoading := True, hasError := False, requestCount := requestCount s + 1 \<rparr>
      else s)"

text \<open>\<open>http.get\<close> is subscribed to: a request leaves, under a fresh number.\<close>

definition sendRequest :: "app \<Rightarrow> string \<Rightarrow> nat \<Rightarrow> app" where
  "sendRequest s q failed =
     s\<lparr> subscription := InFlight (nextRequest s) q failed,
        httpRequests := httpRequests s @ [(nextRequest s, q)],
        nextRequest := nextRequest s + 1 \<rparr>"

text \<open>\<open>switchMap\<close>: the inner subscription it held is dropped, whatever its state; a
  blank query gives \<open>of({query, results: []})\<close>, delivered to the subscriber at once,
  any other query a request.\<close>

definition switchMap :: "app \<Rightarrow> string \<Rightarrow> app" where
  "switchMap s q =
     (if \<not> truthy (trim q) then handleSearchResponse (s\<lparr> subscription := Idle \<rparr>) []
      else sendRequest s q 0)"

text \<open>A value leaves \<open>debounceTime\<close>: \<open>distinctUntilChanged\<close> stops it when it equals
  the value before it, else it goes through \<open>tap\<close> and \<open>switchMap\<close>.\<close>

definition settle :: "app \<Rightarrow> string \<Rightarrow> app" where
  "settle s q =
     (if lastDistinct s = Some q then s
      else switchMap (trackRequest (s\<lparr> lastDistinct := Some q \<rparr>) q) q)"

definition debounceElapsed :: "app \<Rightarrow> app" where
  "debounceElapsed s =
     (case debounced s of
        None \<Rightarrow> s
      | Some v \<Rightarrow> settle (s\<lparr> debounced := None \<rparr>) v)"

text \<open>The answers of the network, each for the request of one number. An answer for a
  request the stream is no longer subscribed to reaches no callback.

  A success passes \<open>timeout\<close> and \<open>retry\<close>, the second \<open>tap\<close> records the latency
  measured and the subscriber calls \<open>handleSearchResponse\<close>. A failure, the timeout
  included, reaches \<open>retry\<close>: the first \<open>MAX_RETRIES\<close> failures start the pause before
  a new request, the next one reaches \<open>catchError\<close>, which calls
  \<open>handleSearchError\<close> and hands an empty result to the subscriber.

  The pause is \<open>of(null).pipe(debounceTime(1000 * retryCount))\<close>, which emits as soon
  as \<open>of(null)\<close> completes: in the code the new request leaves in the same turn as the
  failure. Here the end of the pause is an event of its own, \<open>RetryElapsed\<close>, which may
  come at once or later; the runs of the code are those where it comes at once.\<close>

definition httpSuccess :: "app \<Rightarrow> nat \<Rightarrow> string list \<Rightarrow> nat \<Rightarrow> app" where
  "httpSuccess s n response elapsed =
     (case subscription s of
        InFlight m q failed \<Rightarrow>
          if m = n
          then handleSearchResponse (s\<lparr> subscription := Idle, latency := Some elapsed \<rparr>) response
          else s
      | _ \<Rightarrow> s)"

definition httpFailure :: "app \<Rightarrow> nat \<Rightarrow> failure \<Rightarrow> app" where
  "httpFailure s n e =
     (case subscription s of
        InFlight m q failed \<Rightarrow>
          if m = n
          then (if failed < MAX_RETRIES then s\<lparr> subscription := Backoff m q (failed + 1) \<rparr>
                else handleSearchResponse (handleSearchError (s\<lparr> subscription := Idle \<rparr>) e q) [])
          else s
      | _ \<Rightarrow> s)"

definition retryElapsed :: "app \<Rightarrow> nat \<Rightarrow> app" where
  "retryElapsed s n =
     (case subscription s of
        Backoff m q failed \<Rightarrow> if m = n then sendRequest s q failed else s
      | _ \<Rightarrow> s)"

subsection \<open>Events\<close>

datatype event =
    SearchInput string
  | Focus
  | Blur
  | BlurElapsed
  | KeyDown key
  | Click string
  | Retry
  | ClearSearch
  | SelectSuggestion string
  | RemoveSelection
  | DismissToast
  | ToastElapsed
  | DebounceElapsed
  | HttpSuccess nat "string list" nat
  | HttpFailure nat failure
  | RetryElapsed nat

fun step :: "app \<Rightarrow> event \<Rightarrow> app" where
  "step s (SearchInput v) = onSearchInput s v"
| "step s Focus = onFocus s"
| "step s Blur = onBlur s"
| "step s BlurElapsed = blurElapsed s"
| "step s (KeyDown k) = onKeyDown s k"
| "step s (Click r) = selectResult s r"
| "step s Retry = retry s"
| "step s ClearSearch = clearSearch s"
| "step s (SelectSuggestion f) = selectSuggestion s f"
| "step s RemoveSelection = removeSelection s"
| "step s DismissToast = dismissToast s"
| "step s ToastElapsed = s\<lparr> showErrorToast := False \<rparr>"
| "step s DebounceElapsed = debounceElapsed s"
| "step s (HttpSuccess n response elapsed) = httpSuccess s n response elapsed"
| "step s (HttpFailure n e) = httpFailure s n e"
| "step s (RetryElapsed n) = retryElapsed s n"

definition run :: "app \<Rightarrow> event list \<Rightarrow> app" where
  "run s evs = foldl step s evs"

subsection \<open>Requests and the events that answer them\<close>

text \<open>The number of the request a network event answers.\<close>

fun requestOf :: "event \<Rightarrow> nat option" where
  "requestOf (HttpSuccess n response elapsed) = Some n"
| "requestOf (HttpFailure n e) = Some n"
| "requestOf (RetryElapsed n) = Some n"
| "requestOf ev = None"

text \<open>The number of the request the stream is subscribed to, when there is one.\<close>

definition current :: "app \<Rightarrow> nat option" where
  "current s = (case subscription s of
                  Idle \<Rightarrow> None
                | InFlight n q failed \<Rightarrow> Some n
                | Backoff n q failed \<Rightarrow> Some n)"

text \<open>An event answers a request numbered \<open>m\<close> or later.\<close>

definition since :: "nat \<Rightarrow> event \<Rightarrow> bool" where
  "since m ev = (case requestOf ev of Some n \<Rightarrow> m \<le> n | None \<Rightarrow> False)"

text \<open>A burst of settled queries, none blank, each one different from the settled
  value before it (\<open>prev\<close> is the value before the first).\<close>

fun burst :: "string option \<Rightarrow> string list \<Rightarrow> bool" where
  "burst prev [] = True"
| "burst prev (q # qs) = (prev \<noteq> Some q \<and> truthy (trim q) \<and> burst (Some q) qs)"

text \<open>Every request number in use is \<open>m\<close> or later: the number the next request
  gets, and the number of the request subscribed to.\<close>

definition fresh :: "nat \<Rightarrow> app \<Rightarrow> bool" where
  "fresh m s = (m \<le> nextRequest s \<and> (case current s of None \<Rightarrow> True | Some n \<Rightarrow> m \<le> n))"

text \<open>Two properties of the states the component can be in: the requests sent so far
  have numbers below the next one, and while the stream is subscribed to a request the
  error flag is down.\<close>

definition numbered :: "app \<Rightarrow> bool" where
  "numbered s = (list_all (\<lambda>r. fst r < nextRequest s) (httpRequests s)
                 \<and> (case current s of None \<Rightarrow> True | Some n \<Rightarrow> n < nextRequest s))"

definition quiet :: "app \<Rightarrow> bool" where
  "quiet s = (subscription s = Idle \<or> \<not> hasError s)"

section \<open>Result highlighting\<close>

subsection \<open>\<open>escapeRegex\<close>\<close>

text \<open>The class \<open>[.*+?^${}()|[\]\\]\<close> of the source; U+005C is the backslash.\<close>

definition escapeClass :: "char \<Rightarrow> bool" where
  "escapeClass c = (c \<in> set ''.*+?^${}()|[]'' \<or> c = CHR 0x5C)"

text \<open>\<open>str.replace(/[...]/g, '\\$&')\<close>: a backslash goes before every character of
  the class.\<close>

definition escapeRegex :: "string \<Rightarrow> string" where
  "escapeRegex str = concat (map (\<lambda>c. if escapeClass c then [CHR 0x5C, c] else [c]) str)"

subsection \<open>The regular expressions the utility builds\<close>

text \<open>
  \<open>new RegExp(p, 'gi')\<close> and \<open>String.prototype.replace\<close> belong to the language, not
  to the repository. They are modelled for the patterns that are one group around
  literal atoms, which is all \<open>highlightMatch\<close> ever builds (lemma
  \<open>groupLiteral_escapeRegex\<close> below); any other pattern is \<open>None\<close>.

  The syntax characters of a pattern, after ECMAScript: \<open>^ $ \ . * + ? ( ) [ ] { } |\<close>.
\<close>

definition syntaxCharacter :: "char \<Rightarrow> bool" where
  "syntaxCharacter c = (c \<in> set ''^$.*+?()[]{}|'' \<or> c = CHR 0x5C)"

text \<open>A pattern of literal atoms and the string it spells: a character that is not a
  syntax character stands for itself, a backslash before a syntax character for that
  character.\<close>

fun literalAtoms :: "string \<Rightarrow> string option" where
  "literalAtoms [] = Some []"
| "literalAtoms [c] = (if syntaxCharacter c then None else Some [c])"
| "literalAtoms (c # d # ds) =
     (if c = CHR 0x5C
      then (if syntaxCharacter d then map_option ((#) d) (literalAtoms ds) else None)
      else if syntaxCharacter c then None
      else map_option ((#) c) (literalAtoms (d # ds)))"

text \<open>A pattern \<open>(\<close>atoms\<open>)\<close> with at least one atom.\<close>

definition groupLiteral :: "string \<Rightarrow> string option" where
  "groupLiteral p =
     (case p of
        [] \<Rightarrow> None
      | c # cs \<Rightarrow>
          if c = CHR ''(''  \<and> cs \<noteq> [] \<and> last cs = CHR '')''
          then (case literalAtoms (butlast cs) of
                  None \<Rightarrow> None
                | Some l \<Rightarrow> if l = [] then None else Some l)
          else None)"

text \<open>The flag \<open>i\<close> compares characters after \<open>Canonicalize\<close>: the upper case letter
  when it is one code unit. In the range U+0000 to U+00FF that maps \<open>a\<close>..\<open>z\<close> and
  U+00E0..U+00FE but U+00F7 down by 32; U+00B5 and U+00FF map outside the range, to
  code units no other character of the range maps to, and stay here as they are.\<close>

definition canonicalize :: "char \<Rightarrow> char" where
  "canonicalize c =
     (let n = (of_char c :: nat) in
      if (97 \<le> n \<and> n \<le> 122) \<or> (224 \<le> n \<and> n \<le> 254 \<and> n \<noteq> 247) then char_of (n - 32) else c)"

text \<open>The literal matches at the start of the text.\<close>

definition matchesAt :: "string \<Rightarrow> string \<Rightarrow> bool" where
  "matchesAt l text =
     (length l \<le> length text \<and> map canonicalize (take (length l) text) = map canonicalize l)"

text \<open>The flag \<open>g\<close>: the text is scanned from the left; where the literal matches, the
  match is taken and the scan goes on after it, elsewhere one character is passed over.
  The result is the text cut in pieces, each marked as a match or not.\<close>

function matchAll :: "string \<Rightarrow> string \<Rightarrow> (bool \<times> string) list" where
  "matchAll l [] = []"
| "matchAll l (c # cs) =
     (if l \<noteq> [] \<and> matchesAt l (c # cs)
      then (True, take (length l) (c # cs)) # matchAll l (drop (length l) (c # cs))
      else (False, [c]) # matchAll l cs)"
  by pat_completeness auto
termination
  by (relation "measure (\<lambda>(l, text). length text)") (auto simp: neq_Nil_conv)

text \<open>The replacement \<open><mark>$1</mark>\<close>: group 1 is the whole match.\<close>

definition replacement :: "bool \<times> string \<Rightarrow> string" where
  "replacement p = (if fst p then ''<mark>'' @ snd p @ ''</mark>'' else snd p)"

definition regexReplace :: "string \<Rightarrow> string \<Rightarrow> string option" where
  "regexReplace pattern text =
     map_option (\<lambda>l. concat (map replacement (matchAll l text))) (groupLiteral pattern)"

subsection \<open>\<open>highlightMatch\<close>\<close>

definition highlightMatch :: "string \<Rightarrow> string \<Rightarrow> string option" where
  "highlightMatch text q =
     (if \<not> truthy (trim q) then Some text
      else regexReplace (''('' @ escapeRegex q @ '')'') text)"

section \<open>Example states\<close>

text \<open>An example state: three results on display, the dropdown open, no item
  highlighted.\<close>

definition fruitList :: app where
  "fruitList = initial\<lparr> searchTerm := ''ap'', results := [''apple'', ''apricot'', ''grape''],
     hasSearched := True, showDropdown := True, lastDistinct := Some ''ap'',
     nextRequest := 1, httpRequests := [(0, ''ap'')], requestCount := 1 \<rparr>"

text \<open>A run of the component: six results for "ap" arrive, the user types on to
  "app" and moves the highlight down three times over the list still on display, then
  the two results for "app" arrive.\<close>

definition staleCursor :: app where
  "staleCursor = run initial
     [SearchInput ''ap'', DebounceElapsed,
      HttpSuccess 0 [''apple'', ''apricot'', ''grape'', ''grapefruit'', ''papaya'', ''pineapple''] 412,
      SearchInput ''app'', KeyDown ArrowDown, KeyDown ArrowDown, KeyDown ArrowDown,
      DebounceElapsed, HttpSuccess 1 [''apple'', ''pineapple''] 380]"

text \<open>The scenario of the specification: the query "appl" has the one result "apple".\<close>

definition singleResult :: app where
  "singleResult = run initial [SearchInput ''appl'', DebounceElapsed, HttpSuccess 0 [''apple''] 350]"

text \<open>As \<open>staleCursor\<close>, for a query nothing matches.\<close>

definition staleEmpty :: app where
  "staleEmpty = run initial
     [SearchInput ''ap'', DebounceElapsed,
      HttpSuccess 0 [''apple'', ''apricot'', ''grape'', ''grapefruit'', ''papaya'', ''pineapple''] 412,
      SearchInput ''apz'', KeyDown ArrowDown, KeyDown ArrowDown, KeyDown ArrowDown,
      DebounceElapsed, HttpSuccess 1 [] 380]"

text \<open>The answer of the mock server when its random failure strikes.\<close>

definition serverFault :: failure where
  "serverFault = HttpErrorResponse 500 (Some ''Random backend failure'')"

text \<open>The query "kiwi" fails three times: the first request and its two retries.\<close>

definition failedKiwi :: app where
  "failedKiwi = run initial
     [SearchInput ''kiwi'', DebounceElapsed,
      HttpFailure 0 serverFault, RetryElapsed 0,
      HttpFailure 1 serverFault, RetryElapsed 1,
      HttpFailure 2 serverFault]"

text \<open>The same with status 503 and no JSON error field.\<close>

definition unavailable :: app where
  "unavailable = run initial
     [SearchInput ''kiwi'', DebounceElapsed,
      HttpFailure 0 (HttpErrorResponse 503 None), RetryElapsed 0,
      HttpFailure 1 (HttpErrorResponse 503 None), RetryElapsed 1,
      HttpFailure 2 (HttpErrorResponse 503 None)]"


text \<open>The user searches "ki", then "kix", and empties the input while the request
  for "kix" is in flight; its empty answer arrives before the empty input settles.\<close>

definition blankAtArrival :: app where
  "blankAtArrival = run initial
     [SearchInput ''ki'', DebounceElapsed, HttpSuccess 0 [''kiwi''] 350,
      SearchInput ''kix'', DebounceElapsed, SearchInput [], HttpSuccess 1 [] 300]"

text \<open>After the failure of "kiwi" the user picks the suggestion "apple", which
  succeeds.\<close>

definition suggestionAfterFailure :: app where
  "suggestionAfterFailure = run failedKiwi
     [SelectSuggestion ''apple'', DebounceElapsed, HttpSuccess 3 [''apple'', ''pineapple''] 300]"

text \<open>A request for "a" is in flight.\<close>

definition searchingA :: app where
  "searchingA = run initial [SearchInput ''a'', DebounceElapsed]"

text \<open>Three results arrive, the user moves down to the last one and commits it with
  Enter.\<close>

definition committedLast :: app where
  "committedLast = run initial
     [SearchInput ''ap'', DebounceElapsed, HttpSuccess 0 [''apple'', ''apricot'', ''grape''] 412,
      KeyDown ArrowDown, KeyDown ArrowDown, KeyDown ArrowDown, KeyDown Enter]"


section \<open>Keyboard navigation\<close>

text \<open>
  C7, as the code has it. With a non-empty result list of length \<open>len\<close>: ArrowDown on
  an open dropdown gives cursor \<open>-1\<close> from the last item and adds one elsewhere;
  ArrowUp gives the last item from \<open>-1\<close> and subtracts one elsewhere, whether the
  dropdown is open or not. ArrowDown on a closed dropdown opens it and leaves the cursor
  where it was. The moves are those of \<open>navigateResults\<close>, which wraps in every state.
\<close>

theorem navigate_wrap_law:
  assumes "results s \<noteq> []"
  shows "(showDropdown s \<and> selectedIndex s = int (length (results s)) - 1 \<longrightarrow>
            selectedIndex (onKeyDown s ArrowDown) = - 1)
       \<and> (selectedIndex s = - 1 \<longrightarrow>
            selectedIndex (onKeyDown s ArrowUp) = int (length (results s)) - 1)
       \<and> (showDropdown s \<and> - 1 \<le> selectedIndex s
            \<and> selectedIndex s < int (length (results s)) - 1 \<longrightarrow>
            selectedIndex (onKeyDown s ArrowDown) = selectedIndex s + 1)
       \<and> (0 \<le> selectedIndex s \<and> selectedIndex s < int (length (results s)) \<longrightarrow>
            selectedIndex (onKeyDown s ArrowUp) = selectedIndex s - 1)
       \<and> (\<not> showDropdown s \<longrightarrow> onKeyDown s ArrowDown = s\<lparr> showDropdown := True \<rparr>)
       \<and> (selectedIndex s = int (length (results s)) - 1 \<longrightarrow>
            selectedIndex (navigateResults s 1) = - 1)
       \<and> (selectedIndex s = - 1 \<longrightarrow>
            selectedIndex (navigateResults s (- 1)) = int (length (results s)) - 1)
       \<and> (- 1 \<le> selectedIndex s \<and> selectedIndex s < int (length (results s)) - 1 \<longrightarrow>
            selectedIndex (navigateResults s 1) = selectedIndex s + 1)
       \<and> (0 \<le> selectedIndex s \<and> selectedIndex s < int (length (results s)) \<longrightarrow>
            selectedIndex (navigateResults s (- 1)) = selectedIndex s - 1)
       \<and> (showDropdown s \<longrightarrow> onKeyDown s ArrowDown = navigateResults s 1)
       \<and> onKeyDown s ArrowUp = navigateResults s (- 1)"
proof -
  have up: "onKeyDown s ArrowUp = navigateResults s (- 1)"
    by (simp add: onKeyDown_def)
  have down: "onKeyDown s ArrowDown = navigateResults s 1" if "showDropdown s"
    using that by (simp add: onKeyDown_def)
  have closed: "onKeyDown s ArrowDown = s\<lparr> showDropdown := True \<rparr>" if "\<not> showDropdown s"
    using that by (simp add: onKeyDown_def)
  have last_down: "selectedIndex (navigateResults s 1) = - 1"
    if "selectedIndex s = int (length (results s)) - 1"
    using that assms by (simp add: navigateResults_def hasResults_def Let_def)
  have none_up: "selectedIndex (navigateResults s (- 1)) = int (length (results s)) - 1"
    if "selectedIndex s = - 1"
    using that assms by (simp add: navigateResults_def hasResults_def Let_def)
  have step_down: "selectedIndex (navigateResults s 1) = selectedIndex s + 1"
    if "- 1 \<le> selectedIndex s \<and> selectedIndex s < int (length (results s)) - 1"
    using that assms by (simp add: navigateResults_def hasResults_def Let_def)
  have step_up: "selectedIndex (navigateResults s (- 1)) = selectedIndex s - 1"
    if "0 \<le> selectedIndex s \<and> selectedIndex s < int (length (results s))"
    using that assms by (simp add: navigateResults_def hasResults_def Let_def)
  from up down closed last_down none_up step_down step_up show ?thesis
    by simp
qed

theorem navigate_wrap_law_witness:
  "selectedIndex (navigateResults (fruitList\<lparr> selectedIndex := 2 \<rparr>) 1) = - 1
   \<and> selectedIndex (navigateResults fruitList (- 1)) = 2
   \<and> selectedIndex (navigateResults (fruitList\<lparr> selectedIndex := 0 \<rparr>) 1) = 1
   \<and> selectedIndex (navigateResults (fruitList\<lparr> selectedIndex := 1 \<rparr>) (- 1)) = 0
   \<and> selectedIndex (onKeyDown (fruitList\<lparr> selectedIndex := 2 \<rparr>) ArrowDown) = - 1
   \<and> selectedIndex (onKeyDown fruitList ArrowUp) = 2
   \<and> selectedIndex (onKeyDown (fruitList\<lparr> selectedIndex := 2, showDropdown := False \<rparr>) ArrowDown) = 2"
  using navigate_wrap_law [of "fruitList\<lparr> selectedIndex := 2 \<rparr>"]
    navigate_wrap_law [of "fruitList\<lparr> selectedIndex := 2, showDropdown := False \<rparr>"]
    navigate_wrap_law [of fruitList]
    navigate_wrap_law [of "fruitList\<lparr> selectedIndex := 0 \<rparr>"]
    navigate_wrap_law [of "fruitList\<lparr> selectedIndex := 1 \<rparr>"]
  by (simp add: fruitList_def initial_def)

text \<open>The claim as written fails on a closed dropdown: in the run \<open>committedLast\<close>
  Enter has committed the last of three results, so the dropdown is closed and the
  cursor is 2; ArrowDown opens the dropdown and the cursor is still 2, not \<open>-1\<close>.\<close>

theorem navigate_wrap_law_counterexample:
  "results committedLast = [''apple'', ''apricot'', ''grape'']
   \<and> selectedIndex committedLast = 2 \<and> \<not> showDropdown committedLast
   \<and> selectedIndex (onKeyDown committedLast ArrowDown) = 2
   \<and> showDropdown (onKeyDown committedLast ArrowDown)"
  unfolding committedLast_def by code_simp

subsection \<open>The example runs, evaluated\<close>

lemma staleCursor_eq: "staleCursor = \<lparr>searchTerm = ''app'', results = [''apple'', ''pineapple''],
    selectedValue = None, selectedIndex = 2, isLoading = False,
    hasError = False, hasSearched = True, showDropdown = True,
    showErrorToast = False, errorMessage = [], toastMessage = [],
    errorCount = 0, requestCount = 2, latency = Some 380,
    blurTimeout = False, debounced = None, lastDistinct = Some ''app'',
    subscription = Idle, nextRequest = 2,
    httpRequests = [(0, ''ap''), (1, ''app'')], resultSelected = []\<rparr>"
  unfolding staleCursor_def by code_simp

lemma singleResult_eq: "singleResult = \<lparr>searchTerm = ''appl'', results = [''apple''],
    selectedValue = None, selectedIndex = - 1, isLoading = False,
    hasError = False, hasSearched = True, showDropdown = True,
    showErrorToast = False, errorMessage = [], toastMessage = [],
    errorCount = 0, requestCount = 1, latency = Some 350,
    blurTimeout = False, debounced = None, lastDistinct = Some ''appl'',
    subscription = Idle, nextRequest = 1,
    httpRequests = [(0, ''appl'')], resultSelected = []\<rparr>"
  unfolding singleResult_def by code_simp

subsection \<open>The Enter key\<close>

lemma onEnter_cases:
  "onEnter s = s \<or> (\<exists>r. r \<in> set (results s) \<and> onEnter s = selectResult s r)"
proof (cases "length (results s) = 1")
  case single: True
  then have first: "results s ! 0 \<in> set (results s)"
    by simp
  show ?thesis
  proof (cases "resultAt (results s) (selectedIndex s)")
    case None
    with single have "onEnter s = selectResult s (results s ! 0)"
      by (simp add: onEnter_def)
    with first show ?thesis by blast
  next
    case (Some r)
    then have "r = results s ! 0"
      using single by (auto simp: resultAt_def split: if_splits)
    with Some single have "onEnter s = selectResult s (results s ! 0)"
      by (simp add: onEnter_def)
    with first show ?thesis by blast
  qed
next
  case several: False
  show ?thesis
  proof (cases "resultAt (results s) (selectedIndex s)")
    case None
    with several show ?thesis by (simp add: onEnter_def)
  next
    case (Some r)
    then have "r \<in> set (results s)"
      by (auto simp: resultAt_def split: if_splits)
    moreover from Some several have "onEnter s = s \<or> onEnter s = selectResult s r"
      by (simp add: onEnter_def)
    ultimately show ?thesis by blast
  qed
qed

lemma selectResult_emits: "resultSelected (selectResult s r) = resultSelected s @ [r]"
  by (simp add: selectResult_def)

text \<open>
  C10. When Enter emits a selection event, the value committed is one of the results
  on display. With a cursor that indexes no result (outside the list, or on an empty
  string, which the guard \<open>this.results[this.selectedIndex]\<close> takes for a missing
  one) and a list not of length one, Enter commits nothing and emits nothing: at most
  it opens the dropdown.
\<close>

theorem enter_commits_member:
  "(resultSelected (onKeyDown s Enter) \<noteq> resultSelected s \<longrightarrow>
      (\<exists>r. r \<in> set (results s) \<and> onKeyDown s Enter = selectResult s r))
   \<and> ((resultAt (results s) (selectedIndex s) = None \<or> resultAt (results s) (selectedIndex s) = Some [])
        \<and> length (results s) \<noteq> 1 \<longrightarrow>
      resultSelected (onKeyDown s Enter) = resultSelected s
      \<and> selectedValue (onKeyDown s Enter) = selectedValue s
      \<and> onKeyDown s Enter = s\<lparr> showDropdown := True \<rparr>)"
proof (intro conjI impI)
  assume emitted: "resultSelected (onKeyDown s Enter) \<noteq> resultSelected s"
  then have "showDropdown s" and "onKeyDown s Enter = onEnter s"
    by (auto simp: onKeyDown_def split: if_splits)
  with emitted onEnter_cases [of s]
  show "\<exists>r. r \<in> set (results s) \<and> onKeyDown s Enter = selectResult s r"
    by auto
next
  assume stale: "(resultAt (results s) (selectedIndex s) = None
      \<or> resultAt (results s) (selectedIndex s) = Some []) \<and> length (results s) \<noteq> 1"
  then have "onEnter s = s"
    by (auto simp: onEnter_def truthy_def)
  then show same: "onKeyDown s Enter = s\<lparr> showDropdown := True \<rparr>"
    by (simp add: onKeyDown_def)
  show "resultSelected (onKeyDown s Enter) = resultSelected s"
    by (simp add: same)
  show "selectedValue (onKeyDown s Enter) = selectedValue s"
    by (simp add: same)
qed

theorem enter_commits_member_witness:
  "resultSelected (onKeyDown staleCursor Enter) = resultSelected staleCursor
   \<and> selectedValue (onKeyDown staleCursor Enter) = selectedValue staleCursor
   \<and> (\<exists>r. r \<in> set (results fruitList)
        \<and> onKeyDown (fruitList\<lparr> selectedIndex := 1 \<rparr>) Enter = selectResult (fruitList\<lparr> selectedIndex := 1 \<rparr>) r)"
proof -
  have stale: "resultAt (results staleCursor) (selectedIndex staleCursor) = None"
    "length (results staleCursor) \<noteq> 1"
    by (simp_all add: staleCursor_eq resultAt_def)
  have emitted: "resultSelected (onKeyDown (fruitList\<lparr> selectedIndex := 1 \<rparr>) Enter)
      \<noteq> resultSelected (fruitList\<lparr> selectedIndex := 1 \<rparr>)"
    by (simp add: fruitList_def initial_def onKeyDown_def onEnter_def resultAt_def
        truthy_def selectResult_def)
  from stale emitted enter_commits_member [of staleCursor]
    enter_commits_member [of "fruitList\<lparr> selectedIndex := 1 \<rparr>"]
  show ?thesis by simp
qed

text \<open>
  C8, as the code has it. On an open dropdown, Enter with the cursor on an existing,
  non-empty result commits that result; Enter with cursor \<open>-1\<close> and exactly one result
  commits that result; with exactly one result and any cursor \<open>\<ge> 0\<close> the result
  committed is again that one. Committing sets the selection, copies it into the query
  field, closes the dropdown and emits one event.
\<close>

theorem enter_commit:
  assumes "showDropdown s"
  shows "(0 \<le> selectedIndex s \<and> selectedIndex s < int (length (results s))
            \<and> results s ! nat (selectedIndex s) \<noteq> [] \<longrightarrow>
          onKeyDown s Enter = selectResult s (results s ! nat (selectedIndex s)))
       \<and> (selectedIndex s = - 1 \<and> results s = [r] \<longrightarrow> onKeyDown s Enter = selectResult s r)
       \<and> (0 \<le> selectedIndex s \<and> results s = [r] \<longrightarrow> onKeyDown s Enter = selectResult s r)
       \<and> selectedValue (selectResult s r) = Some r
       \<and> searchTerm (selectResult s r) = r
       \<and> \<not> showDropdown (selectResult s r)
       \<and> resultSelected (selectResult s r) = resultSelected s @ [r]"
  using assms
  by (auto simp: onKeyDown_def onEnter_def selectResult_def resultAt_def truthy_def
      split: option.splits if_splits)


theorem enter_commit_witness:
  "onKeyDown (fruitList\<lparr> selectedIndex := 1 \<rparr>) Enter
     = selectResult (fruitList\<lparr> selectedIndex := 1 \<rparr>) ''apricot''
   \<and> onKeyDown singleResult Enter = selectResult singleResult ''apple''
   \<and> onKeyDown (singleResult\<lparr> selectedIndex := 0 \<rparr>) Enter
       = selectResult (singleResult\<lparr> selectedIndex := 0 \<rparr>) ''apple''
   \<and> resultSelected (selectResult singleResult ''apple'') = [''apple'']"
  using enter_commit [of "fruitList\<lparr> selectedIndex := 1 \<rparr>" "''apple''"]
    enter_commit [of singleResult "''apple''"]
    enter_commit [of "singleResult\<lparr> selectedIndex := 0 \<rparr>" "''apple''"]
  by (simp add: fruitList_def initial_def singleResult_eq)

text \<open>The claim as written fails where the cursor is \<open>\<ge> 0\<close> and indexes no result:
  in the run \<open>staleCursor\<close> the dropdown is open, the cursor is 2 and the list has
  two results; Enter commits nothing and the dropdown stays open.\<close>

theorem enter_commit_counterexample:
  "showDropdown staleCursor \<and> selectedIndex staleCursor = 2
   \<and> results staleCursor = [''apple'', ''pineapple'']
   \<and> onKeyDown staleCursor Enter = staleCursor
   \<and> selectedValue (onKeyDown staleCursor Enter) = None
   \<and> resultSelected (onKeyDown staleCursor Enter) = []
   \<and> showDropdown (onKeyDown staleCursor Enter)"
  by (simp add: staleCursor_eq onKeyDown_def onEnter_def resultAt_def)

section \<open>The search stream\<close>

subsection \<open>Runs and what holds in every state of a run\<close>

lemma run_Cons: "run s (ev # evs) = run (step s ev) evs"
  by (simp add: run_def)

lemma run_Nil: "run s [] = s"
  by (simp add: run_def)

lemmas handler_defs =
  onSearchInput_def onFocus_def onBlur_def blurElapsed_def onKeyDown_def onEnter_def
  navigateResults_def selectResult_def retry_def clearSearch_def selectSuggestion_def
  removeSelection_def dismissToast_def debounceElapsed_def settle_def trackRequest_def
  switchMap_def sendRequest_def subjectNext_def httpSuccess_def httpFailure_def
  retryElapsed_def handleSearchResponse_def handleSearchError_def showToast_def

lemma step_quiet: "quiet s \<Longrightarrow> quiet (step s ev)"
  by (cases ev; cases "subscription s")
     (auto simp: quiet_def handler_defs Let_def split: key.splits option.splits)

lemma step_numbered: "numbered s \<Longrightarrow> numbered (step s ev)"
  by (cases ev; cases "subscription s")
     (auto simp: numbered_def current_def handler_defs Let_def list_all_iff
        split: key.splits option.splits)


lemma run_snoc: "run s (evs @ [ev]) = step (run s evs) ev"
  by (simp add: run_def)

lemma run_quiet: "quiet (run initial evs)"
proof (induction evs rule: rev_induct)
  case Nil
  show ?case by (simp add: run_Nil quiet_def initial_def)
next
  case (snoc ev evs)
  then show ?case by (simp add: run_snoc step_quiet)
qed

lemma run_numbered: "numbered (run initial evs)"
proof (induction evs rule: rev_induct)
  case Nil
  show ?case by (simp add: run_Nil numbered_def current_def initial_def)
next
  case (snoc ev evs)
  then show ?case by (simp add: run_snoc step_numbered)
qed

subsection \<open>Evaluated runs\<close>

lemma failedKiwi_eq: "failedKiwi = \<lparr>searchTerm = ''kiwi'', results = [], selectedValue = None,
    selectedIndex = - 1, isLoading = False, hasError = True,
    hasSearched = True, showDropdown = True, showErrorToast = False,
    errorMessage = ''Server error. This might be the 15% random failure.'',
    toastMessage = [], errorCount = 1, requestCount = 1, latency = None,
    blurTimeout = False, debounced = None, lastDistinct = Some ''kiwi'',
    subscription = Idle, nextRequest = 3,
    httpRequests = [(0, ''kiwi''), (1, ''kiwi''), (2, ''kiwi'')],
    resultSelected = []\<rparr>"
  unfolding failedKiwi_def by code_simp

lemma searchingA_eq: "searchingA = \<lparr>searchTerm = ''a'', results = [], selectedValue = None,
    selectedIndex = - 1, isLoading = True, hasError = False,
    hasSearched = False, showDropdown = True, showErrorToast = False,
    errorMessage = [], toastMessage = [], errorCount = 0, requestCount = 1, latency = None,
    blurTimeout = False, debounced = None, lastDistinct = Some ''a'',
    subscription = InFlight 0 ''a'' 0, nextRequest = 1,
    httpRequests = [(0, ''a'')], resultSelected = []\<rparr>"
  unfolding searchingA_def by code_simp


subsection \<open>Error messages\<close>

text \<open>
  C6, as the code has it. The message of a failure is chosen in this order: a timeout
  gives the "timed out" message; status 0 the "cannot connect" message; status 500,
  and no other status, the server error message; status 404 the "not found" message;
  otherwise a non-empty \<open>error\<close> field of the body is used as it is; anything else
  gives the "unexpected error" message. The third failure of a query is the one that
  reaches \<open>handleSearchError\<close>.
\<close>

theorem error_message_precedence:
  "errorMessage (handleSearchError s TimeoutError q) = ''Request timed out. Please try again.''
   \<and> errorMessage (handleSearchError s (HttpErrorResponse 0 body) q)
       = ''Cannot connect to server. Is it running?''
   \<and> errorMessage (handleSearchError s (HttpErrorResponse 500 body) q)
       = ''Server error. This might be the 15% random failure.''
   \<and> errorMessage (handleSearchError s (HttpErrorResponse 404 body) q)
       = ''Search endpoint not found.''
   \<and> (status \<noteq> 0 \<and> status \<noteq> 500 \<and> status \<noteq> 404 \<and> m \<noteq> [] \<longrightarrow>
        errorMessage (handleSearchError s (HttpErrorResponse status (Some m)) q) = m)
   \<and> (status \<noteq> 0 \<and> status \<noteq> 500 \<and> status \<noteq> 404 \<and> (body = None \<or> body = Some []) \<longrightarrow>
        errorMessage (handleSearchError s (HttpErrorResponse status body) q)
          = ''An unexpected error occurred.'')
   \<and> (subscription s = InFlight n q MAX_RETRIES \<longrightarrow>
        errorMessage (httpFailure s n e) = errorMessage (handleSearchError s e q)
        \<and> hasError (httpFailure s n e) \<and> results (httpFailure s n e) = []
        \<and> subscription (httpFailure s n e) = Idle)"
  by (auto simp: handleSearchError_def classify_def showToast_def truthy_def Let_def
      httpFailure_def handleSearchResponse_def)

theorem error_message_precedence_witness:
  "errorMessage (handleSearchError searchingA (HttpErrorResponse 503 (Some ''Service Unavailable'')) ''a'')
     = ''Service Unavailable''
   \<and> errorMessage (handleSearchError searchingA (HttpErrorResponse 503 None) ''a'')
     = ''An unexpected error occurred.''
   \<and> errorMessage (handleSearchError searchingA (HttpErrorResponse 500 None) ''a'')
     = ''Server error. This might be the 15% random failure.''
   \<and> errorMessage (httpFailure (searchingA\<lparr> subscription := InFlight 2 ''a'' 2 \<rparr>) 2 TimeoutError)
     = ''Request timed out. Please try again.''"
proof -
  have last: "subscription (searchingA\<lparr> subscription := InFlight 2 ''a'' 2 \<rparr>) = InFlight 2 ''a'' MAX_RETRIES"
    by (simp add: MAX_RETRIES_def)
  from last
    error_message_precedence [of searchingA "''a''" None 503 "''Service Unavailable''" 0 TimeoutError]
    error_message_precedence [of "searchingA\<lparr> subscription := InFlight 2 ''a'' 2 \<rparr>" "''a''" None 503
      "''Service Unavailable''" 2 TimeoutError]
  show ?thesis by simp
qed

text \<open>The claim as written fails for a 5xx status other than 500: after three
  answers with status 503 the message is the "unexpected error" one, not the server
  error one.\<close>

theorem error_message_counterexample:
  "hasError unavailable
   \<and> errorMessage unavailable = ''An unexpected error occurred.''
   \<and> errorMessage unavailable \<noteq> ''Server error. This might be the 15% random failure.''"
  unfolding unavailable_def by code_simp

subsection \<open>Manual retry\<close>

lemma retry_clears_error:
  "truthy (trim (searchTerm s)) \<Longrightarrow>
     \<not> hasError (retry s) \<and> errorMessage (retry s) = [] \<and> debounced (retry s) = Some (searchTerm s)"
  by (simp add: retry_def subjectNext_def)

lemma retry_not_dispatched:
  "truthy (trim (searchTerm s)) \<Longrightarrow> lastDistinct s = Some (searchTerm s) \<Longrightarrow>
     httpRequests (debounceElapsed (retry s)) = httpRequests s
     \<and> subscription (debounceElapsed (retry s)) = subscription s"
  by (auto simp: retry_def subjectNext_def debounceElapsed_def settle_def split: option.splits)

text \<open>
  C5 at a concrete run. After the three failures of "kiwi" the error flag is up and
  the query field holds "kiwi". The retry action clears the flag and the message, and
  hands "kiwi" to the stream; when the debounce time has passed,
  \<open>distinctUntilChanged\<close> finds it equal to the value before it and stops it: no
  request is sent, and the result list stays empty.
\<close>

theorem retry_swallowed:
  "hasError failedKiwi \<and> searchTerm failedKiwi = ''kiwi''
   \<and> httpRequests failedKiwi = [(0, ''kiwi''), (1, ''kiwi''), (2, ''kiwi'')]
   \<and> \<not> hasError (retry failedKiwi) \<and> errorMessage (retry failedKiwi) = []
   \<and> debounced (retry failedKiwi) = Some ''kiwi''
   \<and> httpRequests (run failedKiwi [Retry, DebounceElapsed]) = httpRequests failedKiwi
   \<and> subscription (run failedKiwi [Retry, DebounceElapsed]) = Idle
   \<and> \<not> isLoading (run failedKiwi [Retry, DebounceElapsed])
   \<and> results (run failedKiwi [Retry, DebounceElapsed]) = []"
  by (simp add: failedKiwi_eq run_def retry_def subjectNext_def debounceElapsed_def
      settle_def truthy_def trim_def isWhiteSpace_def)

subsection \<open>The cursor after a search response\<close>

text \<open>
  C2 at two concrete runs. \<open>handleSearchResponse\<close> replaces the result list and leaves
  the cursor where it was: in \<open>staleCursor\<close> the cursor is 2 over a list of two
  results, in \<open>staleEmpty\<close> it is 2 over the empty list.
\<close>

theorem cursor_outside_results:
  "selectedIndex staleCursor = 2 \<and> length (results staleCursor) = 2
   \<and> selectedIndex staleEmpty = 2 \<and> results staleEmpty = []"
  unfolding staleCursor_def staleEmpty_def by code_simp

text \<open>The lower bound holds in every state of every run.\<close>

lemma step_cursor_lower: "- 1 \<le> selectedIndex s \<Longrightarrow> - 1 \<le> selectedIndex (step s ev)"
  by (cases ev; cases "subscription s")
     (auto simp: handler_defs hasResults_def Let_def split: key.splits option.splits)

lemma run_cursor_lower: "- 1 \<le> selectedIndex (run initial evs)"
proof (induction evs rule: rev_induct)
  case Nil
  show ?case by (simp add: run_Nil initial_def)
next
  case (snoc ev evs)
  then show ?case by (simp add: run_snoc step_cursor_lower)
qed

subsection \<open>Blank queries\<close>




subsection \<open>A request that succeeds\<close>

text \<open>
  C4, as the code has it. When the request the stream is subscribed to succeeds, at
  the first attempt or at a retry, the result list becomes the list received when that
  list is not empty, or when it is empty and the query field is not blank at that
  moment; the error flag is down afterwards, in every state of every run; the error
  message is left as it was.
\<close>

theorem success_replaces_results:
  assumes "s = run initial evs" and "subscription s = InFlight n q failed"
  shows "results (httpSuccess s n response elapsed)
           = (if response \<noteq> [] \<or> truthy (trim (searchTerm s)) then response else results s)
       \<and> \<not> hasError (httpSuccess s n response elapsed)
       \<and> errorMessage (httpSuccess s n response elapsed) = errorMessage s
       \<and> subscription (httpSuccess s n response elapsed) = Idle
       \<and> \<not> isLoading (httpSuccess s n response elapsed)
       \<and> latency (httpSuccess s n response elapsed) = Some elapsed"
proof -
  from assms run_quiet [of evs] have "\<not> hasError s"
    by (simp add: quiet_def)
  with assms(2) show ?thesis
    by (auto simp: httpSuccess_def handleSearchResponse_def Let_def)
qed

theorem success_replaces_results_witness:
  "results (httpSuccess searchingA 0 [''apple'', ''banana''] 412) = [''apple'', ''banana'']
   \<and> results (httpSuccess searchingA 0 [] 412) = []
   \<and> \<not> hasError (httpSuccess searchingA 0 [] 412)
   \<and> errorMessage (httpSuccess searchingA 0 [] 412) = errorMessage searchingA"
proof -
  have reach: "searchingA = run initial [SearchInput ''a'', DebounceElapsed]"
    by (simp add: searchingA_def)
  have sub: "subscription searchingA = InFlight 0 ''a'' 0"
    by (simp add: searchingA_eq)
  have field: "truthy (trim (searchTerm searchingA))"
    unfolding searchingA_eq by code_simp
  note full = success_replaces_results [OF reach sub, of "[''apple'', ''banana'']" 412]
  note none = success_replaces_results [OF reach sub, of "[]" 412]
  from full none field show ?thesis by simp
qed

text \<open>The claim as written fails twice: in \<open>blankAtArrival\<close> the request for "kix"
  succeeds with the empty list while the query field is blank, and the list keeps the
  result of the query before; in \<open>suggestionAfterFailure\<close> the request for "apple"
  succeeds and the message of the failure before is still there.\<close>

theorem success_counterexample:
  "httpRequests blankAtArrival = [(0, ''ki''), (1, ''kix'')]
   \<and> subscription blankAtArrival = Idle \<and> latency blankAtArrival = Some 300
   \<and> results blankAtArrival = [''kiwi'']
   \<and> results suggestionAfterFailure = [''apple'', ''pineapple'']
   \<and> \<not> hasError suggestionAfterFailure
   \<and> errorMessage suggestionAfterFailure = ''Server error. This might be the 15% random failure.''"
  unfolding blankAtArrival_def suggestionAfterFailure_def failedKiwi_def serverFault_def
  by code_simp


subsection \<open>Supersession\<close>

text \<open>An answer to a request the stream is not subscribed to changes nothing at all.\<close>

lemma stale_ignored:
  "requestOf ev = Some n \<Longrightarrow> current s \<noteq> Some n \<Longrightarrow> step s ev = s"
  by (cases ev; cases "subscription s")
     (auto simp: current_def httpSuccess_def httpFailure_def retryElapsed_def)


lemma settle_new:
  assumes "truthy (trim q)" and "lastDistinct s \<noteq> Some q"
  shows "subscription (settle s q) = InFlight (nextRequest s) q 0"
    and "nextRequest (settle s q) = nextRequest s + 1"
    and "lastDistinct (settle s q) = Some q"
    and "httpRequests (settle s q) = httpRequests s @ [(nextRequest s, q)]"
  using assms
  by (simp_all add: settle_def switchMap_def trackRequest_def sendRequest_def)

lemma burst_settles:
  "burst (lastDistinct s) qs \<Longrightarrow> qs \<noteq> [] \<Longrightarrow>
     subscription (foldl settle s qs) = InFlight (nextRequest s + length qs - 1) (last qs) 0
     \<and> nextRequest (foldl settle s qs) = nextRequest s + length qs
     \<and> httpRequests (foldl settle s qs)
         = httpRequests s @ zip [nextRequest s ..< nextRequest s + length qs] qs"
proof (induction qs arbitrary: s)
  case Nil
  then show ?case by simp
next
  case (Cons q qs)
  then have q: "truthy (trim q)" "lastDistinct s \<noteq> Some q" and rest: "burst (Some q) qs"
    by simp_all
  note new = settle_new [OF q]
  show ?case
  proof (cases "qs = []")
    case True
    with new show ?thesis by simp
  next
    case False
    from rest have "burst (lastDistinct (settle s q)) qs"
      by (simp add: new)
    from Cons.IH [OF this False] False new show ?thesis
      by (simp add: upt_conv_Cons del: upt_Suc)
  qed
qed

lemma fresh_step:
  "fresh m s \<Longrightarrow> requestOf ev = Some n \<Longrightarrow> fresh m (step s ev)"
  by (cases ev; cases "subscription s")
     (auto simp: fresh_def current_def httpSuccess_def httpFailure_def retryElapsed_def
        handleSearchResponse_def handleSearchError_def showToast_def sendRequest_def Let_def)

lemma fresh_older:
  "fresh m s \<Longrightarrow> requestOf ev = Some n \<Longrightarrow> n < m \<Longrightarrow> step s ev = s"
  by (rule stale_ignored) (auto simp: fresh_def split: option.splits)

lemma run_filter_since:
  "fresh m s \<Longrightarrow> list_all (\<lambda>ev. requestOf ev \<noteq> None) evs \<Longrightarrow>
     run s evs = run s (filter (since m) evs)"
proof (induction evs arbitrary: s)
  case Nil
  show ?case by simp
next
  case (Cons ev evs)
  then obtain n where n: "requestOf ev = Some n"
    by auto
  from Cons.prems have rest: "list_all (\<lambda>ev. requestOf ev \<noteq> None) evs"
    by simp
  show ?case
  proof (cases "m \<le> n")
    case True
    with n have "since m ev" by (simp add: since_def)
    moreover have "fresh m (step s ev)"
      using Cons.prems(1) n by (rule fresh_step)
    ultimately show ?thesis
      using Cons.IH [OF _ rest] by (simp add: run_Cons)
  next
    case False
    with n have "\<not> since m ev" by (simp add: since_def)
    moreover have "step s ev = s"
      using Cons.prems(1) n False by (auto intro: fresh_older)
    ultimately show ?thesis
      using Cons.IH [OF Cons.prems(1) rest] by (simp add: run_Cons)
  qed
qed

text \<open>After a burst the requests sent before the one for its last query all have
  smaller numbers.\<close>

lemma burst_older:
  "list_all (\<lambda>r. fst r < nextRequest s) (httpRequests s) \<Longrightarrow>
   burst (lastDistinct s) qs \<Longrightarrow> qs \<noteq> [] \<Longrightarrow>
     list_all (\<lambda>r. fst r < nextRequest s + length qs - 1) (butlast (httpRequests (foldl settle s qs)))
     \<and> last (httpRequests (foldl settle s qs)) = (nextRequest s + length qs - 1, last qs)"
proof (induction qs arbitrary: s)
  case Nil
  then show ?case by simp
next
  case (Cons q qs)
  then have q: "truthy (trim q)" "lastDistinct s \<noteq> Some q" and rest: "burst (Some q) qs"
    by simp_all
  note new = settle_new [OF q]
  show ?case
  proof (cases "qs = []")
    case True
    with new Cons.prems(1) show ?thesis by simp
  next
    case False
    from Cons.prems(1) have "list_all (\<lambda>r. fst r < nextRequest (settle s q)) (httpRequests (settle s q))"
      by (auto simp: new list_all_iff)
    moreover from rest have "burst (lastDistinct (settle s q)) qs"
      by (simp add: new)
    ultimately show ?thesis
      using Cons.IH [of "settle s q"] False new by simp
  qed
qed

text \<open>
  C1. In any state of any run, let a burst of queries settle: none blank, each
  different from the settled value before it, so that each one passes
  \<open>distinctUntilChanged\<close> and replaces the subscription of the one before. Afterwards
  the stream is subscribed to the request for the last query of the burst, under a
  number \<open>m\<close> that every request sent before is below. Whatever answers then arrive
  (successes, failures, timeouts, the ends of retry pauses), for whatever requests, in
  whatever order: the state reached is the one reached from the answers to the requests
  numbered \<open>m\<close> or later alone, which are the request for the last query and its
  retries. If all the answers are for requests below \<open>m\<close>, nothing changes: not the
  result list, not the error flag, not the message, nor any other field.
\<close>

theorem supersession:
  assumes "s = run initial evs0"
    and "burst (lastDistinct s) qs" and "qs \<noteq> []"
    and "list_all (\<lambda>ev. requestOf ev \<noteq> None) evs"
    and "m = nextRequest s + length qs - 1"
  shows "subscription (foldl settle s qs) = InFlight m (last qs) 0
       \<and> last (httpRequests (foldl settle s qs)) = (m, last qs)
       \<and> list_all (\<lambda>r. fst r < m) (butlast (httpRequests (foldl settle s qs)))
       \<and> run (foldl settle s qs) evs = run (foldl settle s qs) (filter (since m) evs)
       \<and> (list_all (\<lambda>ev. \<not> since m ev) evs \<longrightarrow> run (foldl settle s qs) evs = foldl settle s qs)"
proof -
  let ?s' = "foldl settle s qs"
  from burst_settles [OF assms(2,3)] assms(5)
  have sub: "subscription ?s' = InFlight m (last qs) 0" and nxt: "nextRequest ?s' = m + 1"
    using assms(3) by (auto simp: neq_Nil_conv)
  from run_numbered [of evs0] assms(1)
  have "list_all (\<lambda>r. fst r < nextRequest s) (httpRequests s)"
    by (simp add: numbered_def)
  from burst_older [OF this assms(2,3)] assms(5)
  have older: "list_all (\<lambda>r. fst r < m) (butlast (httpRequests ?s'))"
    and newest: "last (httpRequests ?s') = (m, last qs)"
    by simp_all
  from sub nxt have "fresh m ?s'"
    by (simp add: fresh_def current_def)
  from run_filter_since [OF this assms(4)]
  have only: "run ?s' evs = run ?s' (filter (since m) evs)" .
  have "run ?s' evs = ?s'" if "list_all (\<lambda>ev. \<not> since m ev) evs"
  proof -
    from that have "filter (since m) evs = []"
      by (simp add: list_all_iff filter_empty_conv)
    with only show ?thesis by (simp add: run_Nil)
  qed
  with sub older newest only show ?thesis by blast
qed

text \<open>An instance: a request for "a" is in flight (number 0); "ap" and "app" settle
  (numbers 1 and 2). The answer to request 0, the failure of request 1 and the end of
  its pause count for nothing; the answer to request 2 is the one that is shown.\<close>

theorem supersession_witness:
  "subscription (foldl settle searchingA [''ap'', ''app'']) = InFlight 2 ''app'' 0
   \<and> run (foldl settle searchingA [''ap'', ''app''])
        [HttpSuccess 0 [''banana''] 900, HttpFailure 1 TimeoutError,
         HttpSuccess 2 [''apple'', ''pineapple''] 400, RetryElapsed 1]
     = run (foldl settle searchingA [''ap'', ''app'']) [HttpSuccess 2 [''apple'', ''pineapple''] 400]
   \<and> run (foldl settle searchingA [''ap'', ''app''])
        [HttpSuccess 0 [''banana''] 900, HttpFailure 1 TimeoutError, RetryElapsed 1]
     = foldl settle searchingA [''ap'', ''app'']"
proof -
  have reach: "searchingA = run initial [SearchInput ''a'', DebounceElapsed]"
    by (simp add: searchingA_def)
  have "truthy (trim ''ap'')" and "truthy (trim ''app'')"
    by code_simp+
  then have burst: "burst (lastDistinct searchingA) [''ap'', ''app'']"
    by (simp add: searchingA_eq)
  have m: "2 = nextRequest searchingA + length [''ap'', ''app''] - 1"
    by (simp add: searchingA_eq)
  have some: "[''ap'', ''app''] \<noteq> []"
    by simp
  have answers: "list_all (\<lambda>ev. requestOf ev \<noteq> None)
      [HttpSuccess 0 [''banana''] 900, HttpFailure 1 TimeoutError,
       HttpSuccess 2 [''apple'', ''pineapple''] 400, RetryElapsed 1]"
    "list_all (\<lambda>ev. requestOf ev \<noteq> None)
      [HttpSuccess 0 [''banana''] 900, HttpFailure 1 TimeoutError, RetryElapsed 1]"
    by simp_all
  from supersession [OF reach burst some answers(1) m]
    supersession [OF reach burst some answers(2) m]
  show ?thesis
    by (simp add: since_def run_Nil)
qed


section \<open>Highlighting\<close>

subsection \<open>Escaping gives a literal pattern\<close>

text \<open>The class \<open>escapeRegex\<close> escapes is the set of syntax characters, so the pattern
  it returns consists of literal atoms and spells the query.\<close>

lemma escapeClass_syntax: "escapeClass c = syntaxCharacter c"
  by (auto simp: escapeClass_def syntaxCharacter_def)

lemma escapeRegex_Cons:
  "escapeRegex (c # cs) = (if escapeClass c then CHR 0x5C # c # escapeRegex cs else c # escapeRegex cs)"
  by (simp add: escapeRegex_def)

lemma literalAtoms_plain:
  "\<not> syntaxCharacter c \<Longrightarrow> literalAtoms (c # cs) = map_option ((#) c) (literalAtoms cs)"
  by (cases cs) (auto simp: syntaxCharacter_def)

lemma literalAtoms_escaped:
  "syntaxCharacter c \<Longrightarrow> literalAtoms (CHR 0x5C # c # cs) = map_option ((#) c) (literalAtoms cs)"
  by simp

lemma literalAtoms_escapeRegex: "literalAtoms (escapeRegex q) = Some q"
proof (induction q)
  case Nil
  show ?case by (simp add: escapeRegex_def)
next
  case (Cons c q)
  show ?case
  proof (cases "syntaxCharacter c")
    case True
    then show ?thesis
      using Cons.IH by (simp add: escapeRegex_Cons escapeClass_syntax del: literalAtoms.simps)
                       (simp add: literalAtoms_escaped)
  next
    case False
    then show ?thesis
      using Cons.IH by (simp add: escapeRegex_Cons escapeClass_syntax literalAtoms_plain
          del: literalAtoms.simps)
  qed
qed

lemma groupLiteral_escapeRegex:
  "q \<noteq> [] \<Longrightarrow> groupLiteral (''('' @ escapeRegex q @ '')'') = Some q"
  by (simp add: groupLiteral_def literalAtoms_escapeRegex butlast_append)

lemma trim_Nil: "trim [] = []"
  by (simp add: trim_def)

lemma truthy_trim: "truthy (trim q) \<Longrightarrow> q \<noteq> []"
  by (auto simp: truthy_def trim_Nil)

subsection \<open>The pieces of the scan\<close>

lemma matchAll_text: "concat (map snd (matchAll l str)) = str"
  by (induction l str rule: matchAll.induct) simp_all

lemma matchAll_marked:
  "(True, m) \<in> set (matchAll l str) \<Longrightarrow>
     length m = length l \<and> map canonicalize m = map canonicalize l"
  by (induction l str rule: matchAll.induct)
     (auto simp: matchesAt_def split: if_splits)

lemma matchAll_unmarked:
  "l \<noteq> [] \<Longrightarrow> matchAll l str = pre @ (False, m) # post \<Longrightarrow>
     length m = 1 \<and> \<not> matchesAt l (m @ concat (map snd post))"
proof (induction l str arbitrary: pre rule: matchAll.induct)
  case (1 l)
  then show ?case by simp
next
  case (2 l c cs)
  show ?case
  proof (cases "matchesAt l (c # cs)")
    case True
    with "2.prems" obtain pre' where
      "matchAll l (drop (length l) (c # cs)) = pre' @ (False, m) # post"
      by (cases pre) auto
    with "2.IH"(1) "2.prems"(1) True show ?thesis
      by blast
  next
    case False
    show ?thesis
    proof (cases pre)
      case Nil
      with "2.prems" False have "m = [c]" and "post = matchAll l cs"
        by auto
      with False show ?thesis
        by (simp add: matchAll_text)
    next
      case (Cons p pre')
      with "2.prems" False have "matchAll l cs = pre' @ (False, m) # post"
        by auto
      with "2.IH"(2) "2.prems"(1) False show ?thesis
        by blast
    qed
  qed
qed

text \<open>
  C9, as the code has it. A blank query gives the text back. For any other query the
  pattern built is a literal one that spells the query, and the text is scanned from
  the left: each occurrence of the query found, upper and lower case taken as equal,
  is put between \<open><mark>\<close> and \<open></mark>\<close> and the scan goes on after it. So the
  pieces put together give the text again; every marked piece is an occurrence of the
  query; and no occurrence begins at a character left unmarked. An occurrence that
  begins inside a marked one is not marked on its own.
\<close>

theorem highlight_wraps:
  "(\<not> truthy (trim q) \<longrightarrow> highlightMatch text q = Some text)
   \<and> (q \<noteq> [] \<longrightarrow> groupLiteral (''('' @ escapeRegex q @ '')'') = Some q)
   \<and> (truthy (trim q) \<longrightarrow>
        highlightMatch text q = Some (concat (map replacement (matchAll q text)))
        \<and> concat (map snd (matchAll q text)) = text
        \<and> (\<forall>m. (True, m) \<in> set (matchAll q text) \<longrightarrow>
              length m = length q \<and> map canonicalize m = map canonicalize q)
        \<and> (\<forall>pre m post. matchAll q text = pre @ (False, m) # post \<longrightarrow>
              length m = 1 \<and> \<not> matchesAt q (m @ concat (map snd post))))"
proof (intro conjI impI allI)
  assume "\<not> truthy (trim q)"
  then show "highlightMatch text q = Some text"
    by (simp add: highlightMatch_def)
next
  assume "q \<noteq> []"
  then show "groupLiteral (''('' @ escapeRegex q @ '')'') = Some q"
    by (rule groupLiteral_escapeRegex)
next
  assume "truthy (trim q)"
  then show "highlightMatch text q = Some (concat (map replacement (matchAll q text)))"
    using groupLiteral_escapeRegex [OF truthy_trim, of q]
    by (simp add: highlightMatch_def regexReplace_def)
next
  show "concat (map snd (matchAll q text)) = text"
    by (rule matchAll_text)
next
  fix m assume "(True, m) \<in> set (matchAll q text)"
  then show "length m = length q" and "map canonicalize m = map canonicalize q"
    using matchAll_marked by blast+
next
  fix pre m post
  assume q: "truthy (trim q)" and "matchAll q text = pre @ (False, m) # post"
  with matchAll_unmarked [OF truthy_trim [OF q]]
  show "length m = 1" and "\<not> matchesAt q (m @ concat (map snd post))"
    by blast+
qed

theorem highlight_wraps_witness:
  "highlightMatch ''apple'' ''AP'' = Some ''<mark>ap</mark>ple''
   \<and> highlightMatch ''apple'' ''  '' = Some ''apple''
   \<and> groupLiteral (''('' @ escapeRegex ''a.b'' @ '')'') = Some ''a.b''"
proof -
  have "truthy (trim ''AP'')" and "\<not> truthy (trim ''  '')"
    by code_simp+
  moreover have "concat (map replacement (matchAll ''AP'' ''apple'')) = ''<mark>ap</mark>ple''"
    by code_simp
  ultimately show ?thesis
    using highlight_wraps [of "''AP''" "''apple''"] highlight_wraps [of "''  ''" "''apple''"]
      highlight_wraps [of "''a.b''" "''apple''"]
    by simp
qed

text \<open>The claim as written fails where occurrences overlap: "banana" holds "ana"
  at offsets 1 and 3, and only the first is wrapped.\<close>

theorem highlight_wraps_counterexample:
  "highlightMatch ''banana'' ''ana'' = Some ''b<mark>ana</mark>na''
   \<and> matchesAt ''ana'' (drop 3 ''banana'')"
  by code_simp


end
